theory Spec2Isabelle
  imports Main
begin

section \<open>The registry schema: the SQL data definition scripts\<close>

text \<open>
  The patient and appointment registry is a PostgreSQL database whose tables are declared
  by the scripts \<^verbatim>\<open>supabase/seed.sql\<close>, \<^verbatim>\<open>backend/reset_and_seed.sql\<close>,
  \<^verbatim>\<open>backend/migrations.sql\<close> and \<^verbatim>\<open>backend/migrations_intake.sql\<close>. A table
  declaration is modelled as the list of its column declarations, each with the
  constraints written in the script; \<open>insert_into\<close> is the meaning PostgreSQL gives to
  an \<^verbatim>\<open>INSERT\<close> against such a declaration: columns that are not supplied take their
  \<^verbatim>\<open>DEFAULT\<close> (or NULL), then the type, NOT NULL, uniqueness and foreign-key
  constraints are checked.
\<close>

datatype sql_type = TEXT | INTEGER | NUMERIC | BOOLEAN | DATE | UUID | TIMESTAMPTZ | JSONB | TEXT_ARRAY

text \<open>Timestamps are seconds since the epoch, dates are days since the epoch.\<close>

datatype sql_value =
    VNull
  | VText string
  | VNum int
  | VBool bool
  | VDate int
  | VUuid string
  | VTimestamp int
  | VJson string
  | VArray "string list"

datatype sql_default =
    Lit_text string
  | Lit_bool bool
  | Lit_json string
  | Lit_array "string list"
  | NOW
  | NOW_plus_hours int
  | Uuid_generate_v4

record column =
  col_name :: string
  col_type :: sql_type
  col_not_null :: bool
  col_unique :: bool
  col_primary_key :: bool
  col_default :: "sql_default option"
  col_references :: "(string \<times> string) option"

record index =
  idx_name :: string
  idx_table :: string
  idx_column :: string
  idx_unique :: bool

record schema =
  tables :: "(string \<times> column list) list"
  indexes :: "index list"

text \<open>The clauses of a column declaration, written as the scripts write them.\<close>

definition col :: "string \<Rightarrow> sql_type \<Rightarrow> column" where
  "col n ty = \<lparr>col_name = n, col_type = ty, col_not_null = False, col_unique = False,
     col_primary_key = False, col_default = None, col_references = None\<rparr>"

definition PRIMARY_KEY :: "column \<Rightarrow> column" where
  "PRIMARY_KEY c = c\<lparr>col_primary_key := True\<rparr>"

definition NOT_NULL :: "column \<Rightarrow> column" where
  "NOT_NULL c = c\<lparr>col_not_null := True\<rparr>"

definition UNIQUE :: "column \<Rightarrow> column" where
  "UNIQUE c = c\<lparr>col_unique := True\<rparr>"

definition DEFAULT :: "sql_default \<Rightarrow> column \<Rightarrow> column" where
  "DEFAULT d c = c\<lparr>col_default := Some d\<rparr>"

definition REFERENCES :: "string \<Rightarrow> string \<Rightarrow> column \<Rightarrow> column" where
  "REFERENCES t k c = c\<lparr>col_references := Some (t, k)\<rparr>"

definition CREATE_INDEX :: "string \<Rightarrow> string \<Rightarrow> string \<Rightarrow> index" where
  "CREATE_INDEX n t c = \<lparr>idx_name = n, idx_table = t, idx_column = c, idx_unique = False\<rparr>"

subsection \<open>supabase/seed.sql\<close>

text \<open>
  The tables \<open>patients\<close> and \<open>appointments\<close> of the script and the indexes on
  them. Its other tables (visits, documents and the clinical records) hold nothing the
  registry is asked about here.
\<close>

definition seed_patients :: "column list" where
  "seed_patients =
    [ PRIMARY_KEY (col ''id'' TEXT),
      NOT_NULL (col ''name'' TEXT),
      col ''age'' INTEGER,
      col ''gender'' TEXT,
      col ''phone'' TEXT,
      col ''email'' TEXT,
      col ''address'' TEXT,
      col ''height_cm'' NUMERIC,
      col ''weight_kg'' NUMERIC,
      DEFAULT (Lit_array []) (col ''allergies'' TEXT_ARRAY),
      DEFAULT (Lit_array []) (col ''medications'' TEXT_ARRAY),
      DEFAULT (Lit_array []) (col ''conditions'' TEXT_ARRAY),
      col ''vitals'' JSONB,
      DEFAULT NOW (col ''created_at'' TIMESTAMPTZ) ]"

definition seed_appointments :: "column list" where
  "seed_appointments =
    [ PRIMARY_KEY (col ''id'' TEXT),
      REFERENCES ''patients'' ''id'' (col ''patient_id'' TEXT),
      NOT_NULL (col ''start_time'' TIMESTAMPTZ),
      DEFAULT (Lit_text ''scheduled'') (col ''status'' TEXT),
      col ''reason'' TEXT,
      col ''vitals'' JSONB,
      DEFAULT NOW (col ''created_at'' TIMESTAMPTZ) ]"

definition seed_sql :: schema where
  "seed_sql =
    \<lparr> tables = [(''patients'', seed_patients), (''appointments'', seed_appointments)],
      indexes =
        [ CREATE_INDEX ''idx_appointments_patient'' ''appointments'' ''patient_id'',
          CREATE_INDEX ''idx_appointments_time'' ''appointments'' ''start_time'' ] \<rparr>"

subsection \<open>backend/reset_and_seed.sql\<close>

text \<open>
  The tables \<open>clinics\<close>, \<open>patients\<close>, \<open>appointments\<close> and \<open>intake_tokens\<close> of
  the script, which drops and recreates every table, and the indexes on them.
\<close>

definition reset_clinics :: "column list" where
  "reset_clinics =
    [ PRIMARY_KEY (col ''id'' TEXT),
      NOT_NULL (col ''name'' TEXT),
      NOT_NULL (UNIQUE (col ''slug'' TEXT)),
      col ''phone'' TEXT,
      DEFAULT NOW (col ''created_at'' TIMESTAMPTZ) ]"

definition reset_patients :: "column list" where
  "reset_patients =
    [ PRIMARY_KEY (col ''id'' TEXT),
      REFERENCES ''clinics'' ''id'' (col ''clinic_id'' TEXT),
      NOT_NULL (col ''name'' TEXT),
      col ''age'' INTEGER,
      col ''gender'' TEXT,
      col ''phone'' TEXT,
      col ''email'' TEXT,
      col ''address'' TEXT,
      col ''height_cm'' NUMERIC,
      col ''weight_kg'' NUMERIC,
      col ''conditions'' TEXT_ARRAY,
      col ''medications'' TEXT_ARRAY,
      col ''allergies'' TEXT_ARRAY,
      DEFAULT (Lit_json ''{}'') (col ''vitals'' JSONB),
      DEFAULT NOW (col ''created_at'' TIMESTAMPTZ) ]"

definition reset_appointments :: "column list" where
  "reset_appointments =
    [ PRIMARY_KEY (col ''id'' TEXT),
      REFERENCES ''clinics'' ''id'' (col ''clinic_id'' TEXT),
      REFERENCES ''patients'' ''id'' (col ''patient_id'' TEXT),
      NOT_NULL (col ''start_time'' TIMESTAMPTZ),
      DEFAULT (Lit_text ''scheduled'') (col ''status'' TEXT),
      col ''reason'' TEXT,
      DEFAULT NOW (col ''created_at'' TIMESTAMPTZ) ]"

definition reset_intake_tokens :: "column list" where
  "reset_intake_tokens =
    [ PRIMARY_KEY (col ''token'' TEXT),
      REFERENCES ''clinics'' ''id'' (col ''clinic_id'' TEXT),
      col ''appointment_id'' TEXT,
      col ''patient_id'' TEXT,
      col ''phone'' TEXT,
      DEFAULT (Lit_bool False) (col ''used'' BOOLEAN),
      DEFAULT NOW (col ''created_at'' TIMESTAMPTZ) ]"

definition reset_and_seed_sql :: schema where
  "reset_and_seed_sql =
    \<lparr> tables =
        [ (''clinics'', reset_clinics),
          (''patients'', reset_patients),
          (''appointments'', reset_appointments),
          (''intake_tokens'', reset_intake_tokens) ],
      indexes =
        [ CREATE_INDEX ''idx_patients_clinic_id'' ''patients'' ''clinic_id'',
          CREATE_INDEX ''idx_appointments_clinic_id'' ''appointments'' ''clinic_id'' ] \<rparr>"

subsection \<open>backend/migrations.sql and backend/migrations_intake.sql\<close>

text \<open>
  \<^verbatim>\<open>ALTER TABLE t ADD COLUMN IF NOT EXISTS c\<close> appends the column unless the table has a
  column of that name; \<^verbatim>\<open>CREATE TABLE IF NOT EXISTS\<close> and
  \<^verbatim>\<open>CREATE INDEX IF NOT EXISTS\<close> do nothing when the name is taken.
\<close>

definition add_column_if_not_exists :: "string \<Rightarrow> column \<Rightarrow> schema \<Rightarrow> schema" where
  "add_column_if_not_exists t c sch =
     sch\<lparr>tables := map (\<lambda>(n, cols).
        if n = t \<and> col_name c \<notin> set (map col_name cols) then (n, cols @ [c]) else (n, cols))
        (tables sch)\<rparr>"

definition create_index_if_not_exists :: "index \<Rightarrow> schema \<Rightarrow> schema" where
  "create_index_if_not_exists i sch =
     (if idx_name i \<in> set (map idx_name (indexes sch)) then sch
      else sch\<lparr>indexes := indexes sch @ [i]\<rparr>)"

definition create_table_if_not_exists :: "string \<Rightarrow> column list \<Rightarrow> schema \<Rightarrow> schema" where
  "create_table_if_not_exists t cols sch =
     (if t \<in> set (map fst (tables sch)) then sch
      else sch\<lparr>tables := tables sch @ [(t, cols)]\<rparr>)"

definition migrations_sql :: "schema \<Rightarrow> schema" where
  "migrations_sql sch =
     create_index_if_not_exists (CREATE_INDEX ''idx_patients_phone'' ''patients'' ''phone'')
       (add_column_if_not_exists ''patients'' (col ''address'' TEXT)
         (add_column_if_not_exists ''patients'' (col ''email'' TEXT)
           (add_column_if_not_exists ''patients'' (col ''phone'' TEXT) sch)))"

definition intake_tokens :: "column list" where
  "intake_tokens =
    [ DEFAULT Uuid_generate_v4 (PRIMARY_KEY (col ''token'' UUID)),
      REFERENCES ''patients'' ''id'' (col ''patient_id'' TEXT),
      REFERENCES ''appointments'' ''id'' (col ''appointment_id'' TEXT),
      NOT_NULL (col ''phone'' TEXT),
      col ''dob'' DATE,
      DEFAULT (Lit_bool False) (col ''is_new_patient'' BOOLEAN),
      DEFAULT (Lit_text ''pending'') (col ''status'' TEXT),
      DEFAULT NOW (col ''created_at'' TIMESTAMPTZ),
      DEFAULT (NOW_plus_hours 24) (col ''expires_at'' TIMESTAMPTZ) ]"

definition migrations_intake_sql :: "schema \<Rightarrow> schema" where
  "migrations_intake_sql sch =
     create_index_if_not_exists
       (CREATE_INDEX ''idx_intake_tokens_appointment_id'' ''intake_tokens'' ''appointment_id'')
       (create_index_if_not_exists
         (CREATE_INDEX ''idx_intake_tokens_token'' ''intake_tokens'' ''token'')
         (create_table_if_not_exists ''intake_tokens'' intake_tokens sch))"

subsection \<open>INSERT against a declared table\<close>

type_synonym row = "(string \<times> sql_value) list"
type_synonym database = "string \<Rightarrow> row list"

datatype sql_error =
    Undefined_table string
  | Undefined_column string
  | Datatype_mismatch string
  | Not_null_violation string
  | Unique_violation string
  | Foreign_key_violation string

definition empty_db :: database where
  "empty_db = (\<lambda>t. [])"

text \<open>
  \<open>now\<close> is the transaction timestamp that every \<^verbatim>\<open>NOW()\<close> of one statement
  returns; \<open>rnd\<close> is the identifier the random generator produces for the statement.
\<close>

fun eval_default :: "int \<Rightarrow> string \<Rightarrow> sql_default \<Rightarrow> sql_value" where
  "eval_default now rnd (Lit_text s) = VText s"
| "eval_default now rnd (Lit_bool b) = VBool b"
| "eval_default now rnd (Lit_json s) = VJson s"
| "eval_default now rnd (Lit_array xs) = VArray xs"
| "eval_default now rnd NOW = VTimestamp now"
| "eval_default now rnd (NOW_plus_hours h) = VTimestamp (now + h * 3600)"
| "eval_default now rnd Uuid_generate_v4 = VUuid rnd"

fun conforms :: "sql_value \<Rightarrow> sql_type \<Rightarrow> bool" where
  "conforms VNull ty = True"
| "conforms (VText s) ty = (ty = TEXT)"
| "conforms (VNum n) ty = (ty = INTEGER \<or> ty = NUMERIC)"
| "conforms (VBool b) ty = (ty = BOOLEAN)"
| "conforms (VDate d) ty = (ty = DATE)"
| "conforms (VUuid u) ty = (ty = UUID)"
| "conforms (VTimestamp t) ty = (ty = TIMESTAMPTZ)"
| "conforms (VJson j) ty = (ty = JSONB)"
| "conforms (VArray xs) ty = (ty = TEXT_ARRAY)"

definition value_of :: "row \<Rightarrow> string \<Rightarrow> sql_value" where
  "value_of r c = (case map_of r c of Some v \<Rightarrow> v | None \<Rightarrow> VNull)"

definition fill_column :: "int \<Rightarrow> string \<Rightarrow> row \<Rightarrow> column \<Rightarrow> string \<times> sql_value" where
  "fill_column now rnd given c =
     (col_name c,
      case map_of given (col_name c) of
        Some v \<Rightarrow> v
      | None \<Rightarrow> (case col_default c of None \<Rightarrow> VNull | Some d \<Rightarrow> eval_default now rnd d))"

definition violates_type :: "row \<Rightarrow> column \<Rightarrow> bool" where
  "violates_type r c = (\<not> conforms (value_of r (col_name c)) (col_type c))"

definition violates_not_null :: "row \<Rightarrow> column \<Rightarrow> bool" where
  "violates_not_null r c =
     ((col_not_null c \<or> col_primary_key c) \<and> value_of r (col_name c) = VNull)"

text \<open>A uniqueness constraint compares non-NULL values only.\<close>

definition violates_unique :: "row list \<Rightarrow> row \<Rightarrow> string \<Rightarrow> bool" where
  "violates_unique rows r k =
     (value_of r k \<noteq> VNull \<and> list_ex (\<lambda>r'. value_of r' k = value_of r k) rows)"

definition violates_fk :: "database \<Rightarrow> row \<Rightarrow> column \<Rightarrow> bool" where
  "violates_fk db r c =
     (case col_references c of
        None \<Rightarrow> False
      | Some (t, k) \<Rightarrow>
          value_of r (col_name c) \<noteq> VNull \<and>
          \<not> list_ex (\<lambda>r'. value_of r' k = value_of r (col_name c)) (db t))"

text \<open>
  The columns of table \<open>t\<close> on which the schema enforces uniqueness: those declared
  \<^verbatim>\<open>PRIMARY KEY\<close> or \<^verbatim>\<open>UNIQUE\<close>, and those of a unique index.
\<close>

definition unique_columns :: "schema \<Rightarrow> string \<Rightarrow> string list" where
  "unique_columns sch t =
     (case map_of (tables sch) t of
        None \<Rightarrow> []
      | Some cols \<Rightarrow>
          map col_name (filter (\<lambda>c. col_unique c \<or> col_primary_key c) cols) @
          map idx_column (filter (\<lambda>i. idx_unique i \<and> idx_table i = t) (indexes sch)))"

definition insert_into ::
  "schema \<Rightarrow> int \<Rightarrow> string \<Rightarrow> database \<Rightarrow> string \<Rightarrow> row \<Rightarrow> sql_error + database" where
  "insert_into sch now rnd db t given =
     (case map_of (tables sch) t of
        None \<Rightarrow> Inl (Undefined_table t)
      | Some cols \<Rightarrow>
         (case find (\<lambda>k. k \<notin> set (map col_name cols)) (map fst given) of
            Some k \<Rightarrow> Inl (Undefined_column k)
          | None \<Rightarrow>
             (let r = map (fill_column now rnd given) cols in
              case find (violates_type r) cols of
                Some c \<Rightarrow> Inl (Datatype_mismatch (col_name c))
              | None \<Rightarrow>
                 (case find (violates_not_null r) cols of
                    Some c \<Rightarrow> Inl (Not_null_violation (col_name c))
                  | None \<Rightarrow>
                     (case find (violates_unique (db t) r) (unique_columns sch t) of
                        Some k \<Rightarrow> Inl (Unique_violation k)
                      | None \<Rightarrow>
                         (case find (violates_fk db r) cols of
                            Some c \<Rightarrow> Inl (Foreign_key_violation (col_name c))
                          | None \<Rightarrow> Inr (db(t := db t @ [r]))))))))"

text \<open>A sequence of inserts in one transaction; the first error aborts it.\<close>

fun insert_all ::
  "schema \<Rightarrow> int \<Rightarrow> database \<Rightarrow> (string \<times> string \<times> row) list \<Rightarrow> sql_error + database" where
  "insert_all sch now db [] = Inr db"
| "insert_all sch now db ((t, rnd, given) # rest) =
     (case insert_into sch now rnd db t given of
        Inl e \<Rightarrow> Inl e
      | Inr db' \<Rightarrow> insert_all sch now db' rest)"

definition column_of :: "schema \<Rightarrow> string \<Rightarrow> string \<Rightarrow> column option" where
  "column_of sch t k =
     (case map_of (tables sch) t of
        None \<Rightarrow> None
      | Some cols \<Rightarrow> find (\<lambda>c. col_name c = k) cols)"

section \<open>The client side of the Process operation (TypeScript)\<close>

text \<open>
  The interfaces of the parchi API client (\<^verbatim>\<open>ParchiEntry\<close>, \<^verbatim>\<open>ParchiProcessResult\<close>,
  \<^verbatim>\<open>ParchiProcessResponse\<close>) are declarations without behaviour of their own. An
  interface is modelled as the list of its members in declaration order, each with its
  name, whether it is optional (\<^verbatim>\<open>date?: string\<close>) and its type.
\<close>

datatype ts_type = TString | TBoolean | TNumber | TNullable ts_type

record ts_member =
  member_name :: string
  member_optional :: bool
  member_type :: ts_type

definition member :: "string \<Rightarrow> ts_type \<Rightarrow> ts_member" where
  "member n ty = \<lparr>member_name = n, member_optional = False, member_type = ty\<rparr>"

definition optional_member :: "string \<Rightarrow> ts_type \<Rightarrow> ts_member" where
  "optional_member n ty = \<lparr>member_name = n, member_optional = True, member_type = ty\<rparr>"

definition ParchiEntry :: "ts_member list" where
  "ParchiEntry =
    [ member ''name'' TString,
      member ''phone'' TString,
      member ''appointment_time'' TString,
      optional_member ''date'' TString,
      optional_member ''time'' TString ]"

definition ParchiProcessResult :: "ts_member list" where
  "ParchiProcessResult =
    [ member ''name'' TString,
      member ''phone'' TString,
      member ''appointment_time'' TString,
      member ''is_new_patient'' TBoolean,
      member ''is_duplicate'' TBoolean,
      member ''patient_id'' (TNullable TString),
      member ''appointment_id'' (TNullable TString),
      member ''intake_link'' (TNullable TString),
      member ''whatsapp_sent'' TBoolean,
      member ''whatsapp_error'' (TNullable TString),
      member ''error'' (TNullable TString) ]"

text \<open>The \<^verbatim>\<open>summary\<close> member of \<^verbatim>\<open>ParchiProcessResponse\<close>.\<close>

definition ParchiProcessResponse_summary :: "ts_member list" where
  "ParchiProcessResponse_summary =
    [ member ''total'' TNumber,
      member ''processed'' TNumber,
      member ''duplicates'' TNumber,
      member ''whatsapp_sent'' TNumber,
      member ''errors'' TNumber ]"

text \<open>
  The member names the specification lists for a ProcessResult, and the same list with
  the two notification members under the names the client declares for them.
\<close>

definition ProcessResult_spec_members :: "string list" where
  "ProcessResult_spec_members =
    [ ''name'', ''phone'', ''appointment_time'', ''is_new_patient'', ''is_duplicate'',
      ''patient_id'', ''appointment_id'', ''notification_sent'', ''notification_error'',
      ''error'' ]"

fun whatsapp_name :: "string \<Rightarrow> string" where
  "whatsapp_name n =
     (if n = ''notification_sent'' then ''whatsapp_sent''
      else if n = ''notification_error'' then ''whatsapp_error''
      else n)"

text \<open>
  \<^verbatim>\<open>handleProcess\<close> of the upload panel: the entries that are ticked and have a
  non-empty name and phone (JavaScript truthiness of a string) are sent, in order, as
  \<^verbatim>\<open>{name, phone, appointment_time}\<close>; when none is left the panel reports an error and
  sends nothing.
\<close>

record ParchiEntryEditable =
  entry_name :: string
  entry_phone :: string
  entry_appointment_time :: string
  entry_date :: "string option"
  entry_time :: "string option"
  entry_selected :: bool

definition handleProcess :: "ParchiEntryEditable list \<Rightarrow> string + (string \<times> string \<times> string) list" where
  "handleProcess entries =
     (let selected = filter (\<lambda>e. entry_selected e \<and> entry_name e \<noteq> [] \<and> entry_phone e \<noteq> []) entries
      in if length selected = 0
         then Inl ''Please select at least one valid entry (with name and phone).''
         else Inr (map (\<lambda>e. (entry_name e, entry_phone e, entry_appointment_time e)) selected))"

section \<open>The processing pipeline, as the specification describes it\<close>

text \<open>
  The server side of the Process operation (normalizer, dedup and matching engine, batch
  orchestrator, notification dispatcher) is not part of the sources at hand. The
  definitions of this section follow sections 3 to 6 of the specification.
\<close>

text \<open>
  Modelled from the spec: the entry the Process operation accepts (section 6:
  \<^verbatim>\<open>{name, phone, appointment_time}\<close>); the server-side input type is missing.
\<close>

record RawEntry =
  raw_name :: string
  raw_phone :: string
  raw_appointment_time :: string

text \<open>
  Modelled from the spec: NormalizedEntry (section 3); the server-side type is missing.
  The appointment time is an absolute instant.
\<close>

record NormalizedEntry =
  norm_name :: string
  phone_canonical :: string
  appointment_time :: int

text \<open>Modelled from the spec: MatchDecision (section 3); the server-side type is missing.\<close>

datatype MatchDecision =
    New_patient
  | Existing_patient nat
  | Duplicate_in_batch
  | Duplicate_existing_appointment

text \<open>Modelled from the spec: ProcessResult (section 3); the server-side type is missing.\<close>

record ProcessResult =
  res_name :: string
  res_phone :: string
  res_appointment_time :: string
  is_new_patient :: bool
  is_duplicate :: bool
  res_patient_id :: "nat option"
  res_appointment_id :: "nat option"
  notification_sent :: bool
  notification_error :: "string option"
  res_error :: "string option"

text \<open>
  Modelled from the spec: the registry-owned Patient (section 3: a stable id and a
  canonical phone); the server-side type is missing.
\<close>

record Patient =
  patient_ident :: nat
  patient_name :: string
  patient_phone :: string

text \<open>
  Modelled from the spec: the registry-owned Appointment (section 3: id, patient id and
  start time; a reason, as \<^verbatim>\<open>createAppointment\<close> of section 6 takes one); the
  server-side type is missing.
\<close>

record Appointment =
  appt_ident :: nat
  appt_patient :: nat
  appt_start :: int
  appt_reason :: string

text \<open>
  Modelled from the spec: the registry the collaborator interface of section 6 works on;
  the server-side registry access is missing. The registry keeps its rows in insertion
  order.
\<close>

record Registry =
  reg_patients :: "Patient list"
  reg_appointments :: "Appointment list"

text \<open>Modelled from the spec: a registry without rows; the server-side registry is missing.\<close>

definition empty_registry :: Registry where
  "empty_registry = \<lparr>reg_patients = [], reg_appointments = []\<rparr>"

text \<open>
  Modelled from the spec: the stable id the registry gives a new row (section 3), one
  above the ids in use; the server-side id generation is missing.
\<close>

definition fresh_ident :: "nat list \<Rightarrow> nat" where
  "fresh_ident ids = Suc (fold max ids 0)"

text \<open>
  Modelled from the spec: \<^verbatim>\<open>Registry.findPatientByPhone\<close> (section 6), an exact match
  on the phone (section 4.4, step 1), the first in insertion order; the server-side
  lookup is missing.
\<close>

definition findPatientByPhone :: "Registry \<Rightarrow> string \<Rightarrow> Patient option" where
  "findPatientByPhone reg ph = find (\<lambda>p. patient_phone p = ph) (reg_patients reg)"

text \<open>
  Modelled from the spec: \<^verbatim>\<open>Registry.createPatient\<close> (section 6); the server-side write
  is missing.
\<close>

definition createPatient :: "Registry \<Rightarrow> string \<Rightarrow> string \<Rightarrow> Patient \<times> Registry" where
  "createPatient reg n ph =
     (let p = \<lparr>patient_ident = fresh_ident (map patient_ident (reg_patients reg)),
                patient_name = n, patient_phone = ph\<rparr>
      in (p, reg\<lparr>reg_patients := reg_patients reg @ [p]\<rparr>))"

text \<open>
  Modelled from the spec: \<^verbatim>\<open>Registry.createAppointment\<close> (section 6); the server-side
  write is missing.
\<close>

definition createAppointment :: "Registry \<Rightarrow> nat \<Rightarrow> int \<Rightarrow> string \<Rightarrow> Appointment \<times> Registry" where
  "createAppointment reg pid t reason =
     (let a = \<lparr>appt_ident = fresh_ident (map appt_ident (reg_appointments reg)),
                appt_patient = pid, appt_start = t, appt_reason = reason\<rparr>
      in (a, reg\<lparr>reg_appointments := reg_appointments reg @ [a]\<rparr>))"

text \<open>
  Modelled from the spec: what the pipeline takes from outside (sections 4.3, 4.6 and 7);
  the server-side code is missing. The specification leaves the recognised calling codes,
  the clinic's time zone and the outcome of every external call open, so they are
  parameters: the normalizer, the calendar date of an instant in the clinic's time zone,
  whether the registry write for the entry at a position of the batch fails, and what the
  messaging gateway answers for it (\<open>None\<close>: sent, \<open>Some e\<close>: failed with \<open>e\<close>).
\<close>

record environment =
  normalize :: "RawEntry \<Rightarrow> string + NormalizedEntry"
  calendar_date :: "int \<Rightarrow> int"
  patient_write_fails :: "nat \<Rightarrow> bool"
  appointment_write_fails :: "nat \<Rightarrow> bool"
  send_message :: "nat \<Rightarrow> string option"

text \<open>
  Modelled from the spec: \<^verbatim>\<open>Registry.findAppointment\<close> (section 6), an appointment of
  the patient on the calendar date (section 4.4, step 4); the server-side lookup is
  missing.
\<close>

definition findAppointment :: "environment \<Rightarrow> Registry \<Rightarrow> nat \<Rightarrow> int \<Rightarrow> Appointment option" where
  "findAppointment env reg pid d =
     find (\<lambda>a. appt_patient a = pid \<and> calendar_date env (appt_start a) = d) (reg_appointments reg)"

text \<open>
  Modelled from the spec: the matching algorithm of section 4.4, its four steps in
  order, with the tie-break that a batch-order duplicate takes precedence over the
  registry check; the server-side matcher is missing. \<open>seen\<close> is the batch context:
  the canonical phones of the earlier entries of the batch.
\<close>

definition match_entry :: "environment \<Rightarrow> Registry \<Rightarrow> string list \<Rightarrow> NormalizedEntry \<Rightarrow> MatchDecision" where
  "match_entry env reg seen n =
     (let candidate =
            (case findPatientByPhone reg (phone_canonical n) of
               Some p \<Rightarrow> Existing_patient (patient_ident p)
             | None \<Rightarrow> New_patient);
          in_batch =
            (if phone_canonical n \<in> set seen then Duplicate_in_batch else candidate)
      in case in_batch of
           Existing_patient pid \<Rightarrow>
             (case findAppointment env reg pid (calendar_date env (appointment_time n)) of
                Some a \<Rightarrow> Duplicate_existing_appointment
              | None \<Rightarrow> Existing_patient pid)
         | d \<Rightarrow> d)"

text \<open>
  Modelled from the spec: the ProcessResult of an entry for which nothing has happened
  yet, with the entry's own name, phone and appointment time (section 3); the server-side
  construction of results is missing.
\<close>

definition blank_result :: "RawEntry \<Rightarrow> ProcessResult" where
  "blank_result e =
     \<lparr>res_name = raw_name e, res_phone = raw_phone e,
      res_appointment_time = raw_appointment_time e,
      is_new_patient = False, is_duplicate = False,
      res_patient_id = None, res_appointment_id = None,
      notification_sent = False, notification_error = None, res_error = None\<rparr>"

text \<open>
  Modelled from the spec: the second half of the unit of work of section 4.5 for an entry
  that is no duplicate: create the appointment, then dispatch the notification (section
  4.6), whose outcome goes into the result and touches nothing else; a failed write is
  recorded in the result (section 7). The server-side orchestrator is missing. \<open>i\<close> is
  the position of the entry in the batch.
\<close>

definition book ::
  "environment \<Rightarrow> nat \<Rightarrow> Registry \<Rightarrow> RawEntry \<Rightarrow> NormalizedEntry \<Rightarrow> nat \<Rightarrow> bool \<Rightarrow> ProcessResult \<times> Registry" where
  "book env i reg e n pid is_new =
     (if appointment_write_fails env i
      then ((blank_result e)\<lparr>res_error := Some ''creation_error''\<rparr>, reg)
      else
        (let (a, reg') = createAppointment reg pid (appointment_time n) ''parchi'';
             sent = send_message env i
         in ((blank_result e)
               \<lparr>is_new_patient := is_new,
                res_patient_id := Some pid,
                res_appointment_id := Some (appt_ident a),
                notification_sent := (sent = None),
                notification_error := sent\<rparr>,
             reg')))"

text \<open>
  Modelled from the spec: the per-entry unit of work of section 4.5: normalize, match,
  then create the patient and book for a new patient, book for an existing one, and
  record a duplicate without creating or notifying; an invalid entry is recorded with its
  reason and goes no further (section 4.3). The server-side orchestrator is missing.
\<close>

definition process_entry ::
  "environment \<Rightarrow> nat \<Rightarrow> Registry \<times> string list \<Rightarrow> RawEntry \<Rightarrow>
     (MatchDecision option \<times> ProcessResult) \<times> (Registry \<times> string list)" where
  "process_entry env i st e =
     (let (reg, seen) = st in
      case normalize env e of
        Inl reason \<Rightarrow> ((None, (blank_result e)\<lparr>res_error := Some reason\<rparr>), (reg, seen))
      | Inr n \<Rightarrow>
         (let d = match_entry env reg seen n;
              seen' = seen @ [phone_canonical n]
          in case d of
               New_patient \<Rightarrow>
                 (if patient_write_fails env i
                  then ((Some d, (blank_result e)\<lparr>res_error := Some ''creation_error''\<rparr>),
                        (reg, seen'))
                  else
                    (let (p, reg1) = createPatient reg (norm_name n) (phone_canonical n);
                         (r, reg2) = book env i reg1 e n (patient_ident p) True
                     in ((Some d, r), (reg2, seen'))))
             | Existing_patient pid \<Rightarrow>
                 (let (r, reg2) = book env i reg e n pid False
                  in ((Some d, r), (reg2, seen')))
             | Duplicate_in_batch \<Rightarrow>
                 ((Some d, (blank_result e)\<lparr>is_duplicate := True\<rparr>), (reg, seen'))
             | Duplicate_existing_appointment \<Rightarrow>
                 ((Some d, (blank_result e)\<lparr>is_duplicate := True\<rparr>), (reg, seen'))))"

text \<open>
  Modelled from the spec: the batch of section 4.5, its entries taken one at a time in
  input order (the processing order of section 4.4; the per-phone exclusion of section 5
  serialises the entries of one phone); the server-side batch loop is missing.
\<close>

fun run_batch ::
  "environment \<Rightarrow> nat \<Rightarrow> Registry \<times> string list \<Rightarrow> RawEntry list \<Rightarrow>
     (MatchDecision option \<times> ProcessResult) list \<times> (Registry \<times> string list)" where
  "run_batch env i st [] = ([], st)"
| "run_batch env i st (e # es) =
     (let (out, st') = process_entry env i st e;
          (outs, st'') = run_batch env (Suc i) st' es
      in (out # outs, st''))"

text \<open>
  Modelled from the spec: \<^verbatim>\<open>process(selected_entries)\<close> of section 4.5, the results
  of a batch started with an empty batch context; the server-side endpoint is missing.
\<close>

definition process :: "environment \<Rightarrow> Registry \<Rightarrow> RawEntry list \<Rightarrow> ProcessResult list" where
  "process env reg es = map snd (fst (run_batch env 0 (reg, []) es))"

text \<open>
  Modelled from the spec: the MatchDecision of each entry of a batch (none for an invalid
  entry); the server-side matcher is missing.
\<close>

definition decisions :: "environment \<Rightarrow> Registry \<Rightarrow> RawEntry list \<Rightarrow> MatchDecision option list" where
  "decisions env reg es = map fst (fst (run_batch env 0 (reg, []) es))"

text \<open>
  Modelled from the spec: the registry a batch leaves behind; the server-side registry
  access is missing.
\<close>

definition registry_after :: "environment \<Rightarrow> Registry \<Rightarrow> RawEntry list \<Rightarrow> Registry" where
  "registry_after env reg es = fst (snd (run_batch env 0 (reg, []) es))"

text \<open>
  Modelled from the spec: the canonical phone of an entry, when the normalizer accepts
  the entry; the server-side normalizer is missing.
\<close>

definition canonical_phone :: "environment \<Rightarrow> RawEntry \<Rightarrow> string option" where
  "canonical_phone env e =
     (case normalize env e of Inl reason \<Rightarrow> None | Inr n \<Rightarrow> Some (phone_canonical n))"

text \<open>
  Three notions used to state what a run of the batch leaves behind: one registry extends
  another when it only adds rows at the end; a phone is booked on a date when the
  registry's patient with that phone has an appointment on that date; a batch is covered
  when every entry is valid and its phone either occurred earlier in the batch (or in
  \<open>seen\<close>) or is booked on the entry's date.
\<close>

definition extends :: "Registry \<Rightarrow> Registry \<Rightarrow> bool" where
  "extends reg reg' =
     (\<exists>ps as. reg_patients reg' = reg_patients reg @ ps \<and>
              reg_appointments reg' = reg_appointments reg @ as)"

definition booked :: "environment \<Rightarrow> Registry \<Rightarrow> string \<Rightarrow> int \<Rightarrow> bool" where
  "booked env reg ph d =
     (case findPatientByPhone reg ph of
        None \<Rightarrow> False
      | Some p \<Rightarrow> findAppointment env reg (patient_ident p) d \<noteq> None)"

fun covered :: "environment \<Rightarrow> Registry \<Rightarrow> string list \<Rightarrow> RawEntry list \<Rightarrow> bool" where
  "covered env reg seen [] = True"
| "covered env reg seen (e # es) =
     (case normalize env e of
        Inl reason \<Rightarrow> False
      | Inr n \<Rightarrow>
          (phone_canonical n \<in> set seen \<or>
           booked env reg (phone_canonical n) (calendar_date env (appointment_time n))) \<and>
          covered env reg (seen @ [phone_canonical n]) es)"

subsection \<open>An environment for concrete runs\<close>

text \<open>
  One environment, used to run the pipeline on concrete batches. The theorems about the
  pipeline hold for every environment.
\<close>

text \<open>The digits of a string, and the number a string of digits denotes.\<close>

definition digits_only :: "string \<Rightarrow> string" where
  "digits_only s = filter (\<lambda>c. c \<in> set ''0123456789'') s"

definition digit_value :: "char \<Rightarrow> int" where
  "digit_value c =
     (case map_of (zip ''0123456789'' [0, 1, 2, 3, 4, 5, 6, 7, 8, 9]) c of
        Some d \<Rightarrow> d
      | None \<Rightarrow> 0)"

definition decimal_value :: "string \<Rightarrow> int" where
  "decimal_value s = foldl (\<lambda>acc c. acc * 10 + digit_value c) 0 s"

text \<open>
  Modelled from the spec: one normalizer that fits section 4.3; the server-side
  normalizer is missing. It keeps the digits of the phone, drops the calling code 91 from
  a twelve-digit number and asks for ten digits; it asks for a name; it reads the
  appointment time as seconds since the epoch written in decimal.
\<close>

definition example_normalize :: "RawEntry \<Rightarrow> string + NormalizedEntry" where
  "example_normalize e =
     (let d = digits_only (raw_phone e);
          ph = (if length d = 12 \<and> take 2 d = ''91'' then drop 2 d else d)
      in if raw_name e = [] then Inl ''missing_name''
         else if length ph \<noteq> 10 then Inl ''missing_phone''
         else if raw_appointment_time e = [] \<or>
                 digits_only (raw_appointment_time e) \<noteq> raw_appointment_time e
              then Inl ''missing_schedule''
         else Inr \<lparr>norm_name = raw_name e, phone_canonical = ph,
                    appointment_time = decimal_value (raw_appointment_time e)\<rparr>)"

text \<open>
  Modelled from the spec: an environment with that normalizer, the calendar date of
  UTC+05:30, no failing registry write and every message sent.
\<close>

definition example_environment :: environment where
  "example_environment =
     \<lparr>normalize = example_normalize,
      calendar_date = (\<lambda>t. (t + 19800) div 86400),
      patient_write_fails = (\<lambda>i. False),
      appointment_write_fails = (\<lambda>i. False),
      send_message = (\<lambda>i. None)\<rparr>"

text \<open>The same environment with every registry write and every message failing.\<close>

definition failing_environment :: environment where
  "failing_environment =
     example_environment
       \<lparr>patient_write_fails := (\<lambda>i. True),
        appointment_write_fails := (\<lambda>i. True),
        send_message := (\<lambda>i. Some ''timeout'')\<rparr>"

text \<open>
  Entries of the scenario of section 8 of the specification: Asha on 4 November 2026 at
  09:00 and Ravi, without a phone, at 10:00 (UTC+05:30); and two more entries used below.
\<close>

definition asha :: RawEntry where
  "asha = \<lparr>raw_name = ''Asha'', raw_phone = ''9876543210'',
            raw_appointment_time = ''1793763000''\<rparr>"

definition ravi :: RawEntry where
  "ravi = \<lparr>raw_name = ''Ravi'', raw_phone = [], raw_appointment_time = ''1793766600''\<rparr>"

definition asha_prefixed :: RawEntry where
  "asha_prefixed = \<lparr>raw_name = ''Asha'', raw_phone = ''+91 98765-43210'',
                     raw_appointment_time = ''1793849400''\<rparr>"

definition meera :: RawEntry where
  "meera = \<lparr>raw_name = ''Meera'', raw_phone = ''9812345678'',
             raw_appointment_time = ''1793766600''\<rparr>"

section \<open>Properties of the registry schema\<close>

lemmas ddl_defs =
  col_def PRIMARY_KEY_def NOT_NULL_def UNIQUE_def DEFAULT_def REFERENCES_def CREATE_INDEX_def
  add_column_if_not_exists_def create_index_if_not_exists_def create_table_if_not_exists_def

lemmas schema_defs =
  seed_sql_def reset_and_seed_sql_def migrations_sql_def migrations_intake_sql_def
  seed_patients_def seed_appointments_def reset_clinics_def reset_patients_def
  reset_appointments_def reset_intake_tokens_def intake_tokens_def

lemmas insert_defs =
  insert_into_def unique_columns_def fill_column_def violates_type_def violates_not_null_def
  violates_unique_def violates_fk_def value_of_def empty_db_def

lemma value_of_fill:
  "value_of (map (fill_column now rnd given) cols) n =
     (case find (\<lambda>c. col_name c = n) cols of
        None \<Rightarrow> VNull
      | Some c \<Rightarrow> snd (fill_column now rnd given c))"
  by (induction cols) (auto simp: value_of_def fill_column_def)

lemma find_cong_set: "(\<And>x. x \<in> set xs \<Longrightarrow> P x = Q x) \<Longrightarrow> find P xs = find Q xs"
  by (induction xs) auto

text \<open>
  Whether an insert is accepted does not depend on the value supplied for a column that
  is neither unique nor a foreign key, as long as the value is not NULL and of the same
  type.
\<close>

lemma insert_into_indep:
  assumes nk: "k \<notin> set (unique_columns sch t)"
    and kc: "\<And>cols c. map_of (tables sch) t = Some cols \<Longrightarrow> c \<in> set cols \<Longrightarrow> col_name c = k \<Longrightarrow>
           col_references c = None \<and> conforms v (col_type c) = conforms v' (col_type c)"
    and v: "v \<noteq> VNull" "v' \<noteq> VNull"
  shows "isl (insert_into sch now rnd db t ((k, v) # given))
       = isl (insert_into sch now rnd db t ((k, v') # given))"
proof (cases "map_of (tables sch) t")
  case None
  then show ?thesis by (simp add: insert_into_def)
next
  case (Some cols)
  define r where "r = map (fill_column now rnd ((k, v) # given)) cols"
  define r' where "r' = map (fill_column now rnd ((k, v') # given)) cols"
  have fc: "snd (fill_column now rnd ((k, w) # given) c) =
      (if col_name c = k then w else snd (fill_column now rnd given c))" for w c
    by (simp add: fill_column_def)
  have other: "value_of r n = value_of r' n" if "n \<noteq> k" for n
    using that
    by (auto simp: r_def r'_def value_of_fill fc split: option.splits
        dest: find_Some_iff[THEN iffD1])
  have atk: "(value_of r k = VNull \<and> value_of r' k = VNull) \<or>
             (value_of r k = v \<and> value_of r' k = v')"
    by (auto simp: r_def r'_def value_of_fill fc split: option.splits
        dest: find_Some_iff[THEN iffD1])
  have ty: "violates_type r c = violates_type r' c" if "c \<in> set cols" for c
  proof (cases "col_name c = k")
    case True
    with atk kc[OF Some that] show ?thesis by (auto simp: violates_type_def)
  next
    case False
    from other[OF this] show ?thesis by (simp add: violates_type_def)
  qed
  have nn: "violates_not_null r c = violates_not_null r' c" for c
    using atk other[of "col_name c"] v
    by (cases "col_name c = k") (auto simp: violates_not_null_def)
  have un: "violates_unique (db t) r n = violates_unique (db t) r' n"
    if "n \<in> set (unique_columns sch t)" for n
  proof -
    from that nk have "n \<noteq> k" by auto
    from other[OF this] show ?thesis by (simp add: violates_unique_def)
  qed
  have fk: "violates_fk db r c = violates_fk db r' c" if "c \<in> set cols" for c
  proof (cases "col_name c = k")
    case True
    with kc[OF Some that] show ?thesis by (simp add: violates_fk_def)
  next
    case False
    from other[OF this] show ?thesis by (simp add: violates_fk_def split: option.splits)
  qed
  have f1: "find (violates_type r) cols = find (violates_type r') cols"
    by (rule find_cong_set) (rule ty)
  have f2: "find (violates_not_null r) cols = find (violates_not_null r') cols"
    by (rule find_cong_set) (rule nn)
  have f3: "find (violates_unique (db t) r) (unique_columns sch t) =
            find (violates_unique (db t) r') (unique_columns sch t)"
    by (rule find_cong_set) (rule un)
  have f4: "find (violates_fk db r) cols = find (violates_fk db r') cols"
    by (rule find_cong_set) (rule fk)
  show ?thesis
    using f1 f2 f3 f4 Some
    by (simp add: insert_into_def Let_def r_def[symmetric] r'_def[symmetric]
        split: option.splits)
qed

lemma registry_tables:
  "map_of (tables seed_sql) ''patients'' = Some seed_patients"
  "map_of (tables (migrations_sql seed_sql)) ''patients'' = Some seed_patients"
  "map_of (tables reset_and_seed_sql) ''patients'' = Some reset_patients"
  "map_of (tables (migrations_sql reset_and_seed_sql)) ''patients'' = Some reset_patients"
  "map_of (tables seed_sql) ''appointments'' = Some seed_appointments"
  "map_of (tables (migrations_sql seed_sql)) ''appointments'' = Some seed_appointments"
  "map_of (tables reset_and_seed_sql) ''appointments'' = Some reset_appointments"
  "map_of (tables (migrations_sql reset_and_seed_sql)) ''appointments'' = Some reset_appointments"
  by (simp_all add: schema_defs ddl_defs)

lemma registry_unique_columns:
  "unique_columns seed_sql ''patients'' = [''id'']"
  "unique_columns (migrations_sql seed_sql) ''patients'' = [''id'']"
  "unique_columns reset_and_seed_sql ''patients'' = [''id'']"
  "unique_columns (migrations_sql reset_and_seed_sql) ''patients'' = [''id'']"
  "unique_columns seed_sql ''appointments'' = [''id'']"
  "unique_columns (migrations_sql seed_sql) ''appointments'' = [''id'']"
  "unique_columns reset_and_seed_sql ''appointments'' = [''id'']"
  "unique_columns (migrations_sql reset_and_seed_sql) ''appointments'' = [''id'']"
  by (simp_all add: unique_columns_def schema_defs ddl_defs)

lemma phone_column:
  "list_all (\<lambda>c. col_name c \<noteq> ''phone'' \<or> col_references c = None) seed_patients"
  "list_all (\<lambda>c. col_name c \<noteq> ''phone'' \<or> col_references c = None) reset_patients"
  by (simp_all add: schema_defs ddl_defs)

lemma start_time_column:
  "list_all (\<lambda>c. col_name c \<noteq> ''start_time'' \<or> col_references c = None) seed_appointments"
  "list_all (\<lambda>c. col_name c \<noteq> ''start_time'' \<or> col_references c = None) reset_appointments"
  by (simp_all add: schema_defs ddl_defs)

lemma insert_patient_any_phone:
  assumes "sch \<in> {seed_sql, migrations_sql seed_sql, reset_and_seed_sql, migrations_sql reset_and_seed_sql}"
  shows "isl (insert_into sch now rnd db ''patients'' ((''phone'', VText s) # given))
       = isl (insert_into sch now rnd db ''patients'' ((''phone'', VText s') # given))"
proof (rule insert_into_indep)
  show "''phone'' \<notin> set (unique_columns sch ''patients'')"
    using assms registry_unique_columns by auto
next
  fix cols c
  assume "map_of (tables sch) ''patients'' = Some cols" "c \<in> set cols" "col_name c = ''phone''"
  moreover have "cols = seed_patients \<or> cols = reset_patients"
    using assms registry_tables calculation(1) by auto
  ultimately show "col_references c = None \<and>
      conforms (VText s) (col_type c) = conforms (VText s') (col_type c)"
    using phone_column by (auto simp: list_all_iff)
qed simp_all

lemma insert_appointment_any_start_time:
  assumes "sch \<in> {seed_sql, migrations_sql seed_sql, reset_and_seed_sql, migrations_sql reset_and_seed_sql}"
  shows "isl (insert_into sch now rnd db ''appointments'' ((''start_time'', VTimestamp t) # given))
       = isl (insert_into sch now rnd db ''appointments'' ((''start_time'', VTimestamp t') # given))"
proof (rule insert_into_indep)
  show "''start_time'' \<notin> set (unique_columns sch ''appointments'')"
    using assms registry_unique_columns by auto
next
  fix cols c
  assume "map_of (tables sch) ''appointments'' = Some cols" "c \<in> set cols"
    "col_name c = ''start_time''"
  moreover have "cols = seed_appointments \<or> cols = reset_appointments"
    using assms registry_tables calculation(1) by auto
  ultimately show "col_references c = None \<and>
      conforms (VTimestamp t) (col_type c) = conforms (VTimestamp t') (col_type c)"
    using start_time_column by (auto simp: list_all_iff)
qed simp_all

lemma same_phone_and_same_slot_rows:
  "list_all (\<lambda>sch.
      case insert_all sch now empty_db
        [ (''patients'', ''r1'',
            [(''id'', VText ''p1''), (''name'', VText ''Asha''), (''phone'', VText ''9876543210'')]),
          (''patients'', ''r2'',
            [(''id'', VText ''p2''), (''name'', VText ''Asha''), (''phone'', VText ''9876543210'')]),
          (''appointments'', ''r3'',
            [(''id'', VText ''a1''), (''patient_id'', VText ''p1''), (''start_time'', VTimestamp 1793763000)]),
          (''appointments'', ''r4'',
            [(''id'', VText ''a2''), (''patient_id'', VText ''p1''), (''start_time'', VTimestamp 1793763000)]) ]
      of
        Inl e \<Rightarrow> False
      | Inr db \<Rightarrow>
          map (\<lambda>r. (value_of r ''id'', value_of r ''phone'')) (db ''patients'') =
            [(VText ''p1'', VText ''9876543210''), (VText ''p2'', VText ''9876543210'')] \<and>
          map (\<lambda>r. (value_of r ''id'', value_of r ''patient_id'', value_of r ''start_time''))
              (db ''appointments'') =
            [(VText ''a1'', VText ''p1'', VTimestamp 1793763000),
             (VText ''a2'', VText ''p1'', VTimestamp 1793763000)])
    [seed_sql, reset_and_seed_sql]"
  by (simp add: schema_defs ddl_defs insert_defs Let_def)

text \<open>
  C9. The registry schema enforces no uniqueness on patient phone numbers and none on
  appointments per patient and time. In each of the schemas the scripts produce
  (\<^verbatim>\<open>supabase/seed.sql\<close> and \<^verbatim>\<open>backend/reset_and_seed.sql\<close>, each with and without
  \<^verbatim>\<open>backend/migrations.sql\<close>), \<open>patients.phone\<close> is a plain nullable TEXT column, the
  only column of \<open>patients\<close> and of \<open>appointments\<close> with a uniqueness constraint is
  \<open>id\<close>, whether a patient row is accepted does not depend on its phone, and whether an
  appointment row is accepted does not depend on its start time. Two patients with the
  same phone and two appointments of one patient at the same instant can be inserted, so
  such states are representable.
\<close>

theorem registry_schema_enforces_no_phone_or_slot_uniqueness:
  "list_all (\<lambda>sch.
       column_of sch ''patients'' ''phone'' = Some (col ''phone'' TEXT) \<and>
       unique_columns sch ''patients'' = [''id''] \<and>
       unique_columns sch ''appointments'' = [''id''] \<and>
       isl (insert_into sch now rnd db ''patients'' ((''phone'', VText s) # given)) =
         isl (insert_into sch now rnd db ''patients'' ((''phone'', VText s') # given)) \<and>
       isl (insert_into sch now rnd db ''appointments'' ((''start_time'', VTimestamp t) # given)) =
         isl (insert_into sch now rnd db ''appointments'' ((''start_time'', VTimestamp t') # given)))
     [seed_sql, migrations_sql seed_sql, reset_and_seed_sql, migrations_sql reset_and_seed_sql] \<and>
   list_all (\<lambda>sch.
      case insert_all sch now empty_db
        [ (''patients'', ''r1'',
            [(''id'', VText ''p1''), (''name'', VText ''Asha''), (''phone'', VText ''9876543210'')]),
          (''patients'', ''r2'',
            [(''id'', VText ''p2''), (''name'', VText ''Asha''), (''phone'', VText ''9876543210'')]),
          (''appointments'', ''r3'',
            [(''id'', VText ''a1''), (''patient_id'', VText ''p1''), (''start_time'', VTimestamp 1793763000)]),
          (''appointments'', ''r4'',
            [(''id'', VText ''a2''), (''patient_id'', VText ''p1''), (''start_time'', VTimestamp 1793763000)]) ]
      of
        Inl e \<Rightarrow> False
      | Inr db \<Rightarrow>
          map (\<lambda>r. (value_of r ''id'', value_of r ''phone'')) (db ''patients'') =
            [(VText ''p1'', VText ''9876543210''), (VText ''p2'', VText ''9876543210'')] \<and>
          map (\<lambda>r. (value_of r ''id'', value_of r ''patient_id'', value_of r ''start_time''))
              (db ''appointments'') =
            [(VText ''a1'', VText ''p1'', VTimestamp 1793763000),
             (VText ''a2'', VText ''p1'', VTimestamp 1793763000)])
    [seed_sql, reset_and_seed_sql]"
proof -
  have cols: "column_of sch ''patients'' ''phone'' = Some (col ''phone'' TEXT)"
    if "sch \<in> {seed_sql, migrations_sql seed_sql, reset_and_seed_sql, migrations_sql reset_and_seed_sql}"
    for sch
    using that registry_tables by (auto simp: column_of_def schema_defs ddl_defs)
  show ?thesis
    using cols registry_unique_columns
      insert_patient_any_phone[of _ now rnd db s given s']
      insert_appointment_any_start_time[of _ now rnd db t given t']
      same_phone_and_same_slot_rows[of now]
    by simp
qed
lemma intake_tokens_table:
  "map_of (tables (migrations_intake_sql seed_sql)) ''intake_tokens'' = Some intake_tokens"
  "map_of (tables (migrations_intake_sql reset_and_seed_sql)) ''intake_tokens'' =
     Some reset_intake_tokens"
  by (simp_all add: schema_defs ddl_defs)

lemma map_of_fill:
  "map_of (map (fill_column now rnd given) cols) n =
     (case find (\<lambda>c. col_name c = n) cols of
        None \<Rightarrow> None
      | Some c \<Rightarrow> Some (snd (fill_column now rnd given c)))"
  by (induction cols) (auto simp: fill_column_def)

lemma intake_tokens_columns:
  "find (\<lambda>c. col_name c = ''status'') intake_tokens =
     Some (DEFAULT (Lit_text ''pending'') (col ''status'' TEXT))"
  "find (\<lambda>c. col_name c = ''created_at'') intake_tokens =
     Some (DEFAULT NOW (col ''created_at'' TIMESTAMPTZ))"
  "find (\<lambda>c. col_name c = ''expires_at'') intake_tokens =
     Some (DEFAULT (NOW_plus_hours 24) (col ''expires_at'' TIMESTAMPTZ))"
  by (simp_all add: intake_tokens_def ddl_defs)

text \<open>
  C10 (as amended). In the \<open>intake_tokens\<close> table that \<^verbatim>\<open>backend/migrations_intake.sql\<close>
  creates, a token inserted without a value for \<open>status\<close>, \<open>created_at\<close> and
  \<open>expires_at\<close> is stored with status \<open>pending\<close>, with the transaction time as its
  creation time and with an expiry exactly 24 hours later.
\<close>

theorem intake_token_default_status_and_expiry:
  assumes "map_of given ''status'' = None"
    and "map_of given ''created_at'' = None"
    and "map_of given ''expires_at'' = None"
    and "insert_into (migrations_intake_sql seed_sql) now rnd db ''intake_tokens'' given = Inr db'"
  shows "\<exists>r. db' ''intake_tokens'' = db ''intake_tokens'' @ [r] \<and>
             map_of r ''status'' = Some (VText ''pending'') \<and>
             map_of r ''created_at'' = Some (VTimestamp now) \<and>
             map_of r ''expires_at'' = Some (VTimestamp (now + 24 * 60 * 60))"
proof -
  let ?r = "map (fill_column now rnd given) intake_tokens"
  from assms(4) have "db' = db(''intake_tokens'' := db ''intake_tokens'' @ [?r])"
    by (simp add: insert_into_def intake_tokens_table Let_def split: option.splits)
  then have "db' ''intake_tokens'' = db ''intake_tokens'' @ [?r]" by simp
  moreover have "map_of ?r ''status'' = Some (VText ''pending'')"
    using assms(1) by (simp add: map_of_fill intake_tokens_columns fill_column_def ddl_defs)
  moreover have "map_of ?r ''created_at'' = Some (VTimestamp now)"
    using assms(2) by (simp add: map_of_fill intake_tokens_columns fill_column_def ddl_defs)
  moreover have "map_of ?r ''expires_at'' = Some (VTimestamp (now + 24 * 60 * 60))"
    using assms(3) by (simp add: map_of_fill intake_tokens_columns fill_column_def ddl_defs)
  ultimately show ?thesis by blast
qed

theorem intake_token_default_witness:
  "insert_into (migrations_intake_sql seed_sql) 1793700000 ''5b1f'' empty_db ''intake_tokens''
      [(''phone'', VText ''9876543210''), (''is_new_patient'', VBool True)] =
     Inr (empty_db(''intake_tokens'' :=
       [[(''token'', VUuid ''5b1f''), (''patient_id'', VNull), (''appointment_id'', VNull),
         (''phone'', VText ''9876543210''), (''dob'', VNull), (''is_new_patient'', VBool True),
         (''status'', VText ''pending''), (''created_at'', VTimestamp 1793700000),
         (''expires_at'', VTimestamp 1793786400)]])) \<and>
   (\<exists>r. (empty_db(''intake_tokens'' :=
       [[(''token'', VUuid ''5b1f''), (''patient_id'', VNull), (''appointment_id'', VNull),
         (''phone'', VText ''9876543210''), (''dob'', VNull), (''is_new_patient'', VBool True),
         (''status'', VText ''pending''), (''created_at'', VTimestamp 1793700000),
         (''expires_at'', VTimestamp 1793786400)]])) ''intake_tokens'' = [r] \<and>
        map_of r ''status'' = Some (VText ''pending'') \<and>
        map_of r ''created_at'' = Some (VTimestamp 1793700000) \<and>
        map_of r ''expires_at'' = Some (VTimestamp 1793786400))"
proof -
  have ins: "insert_into (migrations_intake_sql seed_sql) 1793700000 ''5b1f'' empty_db ''intake_tokens''
      [(''phone'', VText ''9876543210''), (''is_new_patient'', VBool True)] =
     Inr (empty_db(''intake_tokens'' :=
       [[(''token'', VUuid ''5b1f''), (''patient_id'', VNull), (''appointment_id'', VNull),
         (''phone'', VText ''9876543210''), (''dob'', VNull), (''is_new_patient'', VBool True),
         (''status'', VText ''pending''), (''created_at'', VTimestamp 1793700000),
         (''expires_at'', VTimestamp 1793786400)]]))"
    by (simp add: schema_defs ddl_defs insert_defs Let_def)
  have "\<exists>r. (empty_db(''intake_tokens'' :=
       [[(''token'', VUuid ''5b1f''), (''patient_id'', VNull), (''appointment_id'', VNull),
         (''phone'', VText ''9876543210''), (''dob'', VNull), (''is_new_patient'', VBool True),
         (''status'', VText ''pending''), (''created_at'', VTimestamp 1793700000),
         (''expires_at'', VTimestamp 1793786400)]])) ''intake_tokens'' =
         empty_db ''intake_tokens'' @ [r] \<and>
        map_of r ''status'' = Some (VText ''pending'') \<and>
        map_of r ''created_at'' = Some (VTimestamp 1793700000) \<and>
        map_of r ''expires_at'' = Some (VTimestamp (1793700000 + 24 * 60 * 60))"
    by (rule intake_token_default_status_and_expiry[OF _ _ _ ins]) simp_all
  then show ?thesis using ins by (simp add: empty_db_def)
qed

text \<open>
  C10 fails as stated, in two ways. The defaults of \<^verbatim>\<open>backend/migrations_intake.sql\<close>
  apply only to columns the insert leaves out: a token inserted with an explicit status
  and expiry keeps them. And \<^verbatim>\<open>backend/reset_and_seed.sql\<close> creates \<open>intake_tokens\<close>
  without the columns \<open>status\<close> and \<open>expires_at\<close>; the migration, run after it, finds
  the table and leaves it alone, so a token stored there has neither.
\<close>

theorem intake_token_status_and_expiry_not_forced:
  "map (\<lambda>r. (map_of r ''status'', map_of r ''created_at'', map_of r ''expires_at''))
     (case insert_into (migrations_intake_sql seed_sql) 1793700000 ''5b1f'' empty_db ''intake_tokens''
             [(''phone'', VText ''9876543210''), (''status'', VText ''completed''),
              (''expires_at'', VTimestamp 1793700000)]
      of Inl e \<Rightarrow> [] | Inr db \<Rightarrow> db ''intake_tokens'') =
     [(Some (VText ''completed''), Some (VTimestamp 1793700000), Some (VTimestamp 1793700000))] \<and>
   map (\<lambda>r. (map_of r ''status'', map_of r ''created_at'', map_of r ''expires_at''))
     (case insert_into (migrations_intake_sql reset_and_seed_sql) 1793700000 ''5b1f'' empty_db
             ''intake_tokens'' [(''token'', VText ''5b1f''), (''phone'', VText ''9876543210'')]
      of Inl e \<Rightarrow> [] | Inr db \<Rightarrow> db ''intake_tokens'') =
     [(None, Some (VTimestamp 1793700000), None)]"
  by (simp add: schema_defs ddl_defs insert_defs Let_def)

section \<open>Properties of the client-side declarations\<close>

lemmas ts_defs = member_def optional_member_def ParchiProcessResult_def ParchiEntry_def
  ParchiProcessResponse_summary_def ProcessResult_spec_members_def

text \<open>
  What \<^verbatim>\<open>handleProcess\<close> sends: one request entry for each ticked entry with a
  non-empty name and phone, in the order of the panel.
\<close>

lemma handleProcess_sends_selected:
  "handleProcess entries = Inr req \<Longrightarrow>
     req = map (\<lambda>e. (entry_name e, entry_phone e, entry_appointment_time e))
             (filter (\<lambda>e. entry_selected e \<and> entry_name e \<noteq> [] \<and> entry_phone e \<noteq> []) entries) \<and>
     list_all (\<lambda>(n, ph, t). n \<noteq> [] \<and> ph \<noteq> []) req"
  by (auto simp: handleProcess_def Let_def list_all_iff split: if_splits)

text \<open>
  The members the client declares for a result of the Process operation: name, phone,
  appointment_time, is_new_patient, is_duplicate, patient_id, appointment_id, intake_link,
  whatsapp_sent, whatsapp_error and error, none of them optional. Every member the
  specification lists for a ProcessResult is there, the notification outcome under the
  names whatsapp_sent and whatsapp_error, and intake_link is the one member more. The
  declaration says nothing on how many results a batch has or on who may change them:
  that is the server's part.
\<close>

lemma ParchiProcessResult_member_names:
  "map member_name ParchiProcessResult =
     [''name'', ''phone'', ''appointment_time'', ''is_new_patient'', ''is_duplicate'',
      ''patient_id'', ''appointment_id'', ''intake_link'', ''whatsapp_sent'',
      ''whatsapp_error'', ''error''] \<and>
   list_all (\<lambda>m. member_optional m = False) ParchiProcessResult \<and>
   list_all (\<lambda>n. whatsapp_name n \<in> set (map member_name ParchiProcessResult))
     ProcessResult_spec_members \<and>
   filter (\<lambda>n. n \<notin> set (map whatsapp_name ProcessResult_spec_members))
     (map member_name ParchiProcessResult) = [''intake_link'']"
  by (simp add: ts_defs)

text \<open>
  The members of \<^verbatim>\<open>ParchiProcessResult\<close> are not the ten the specification lists: it
  has a member intake_link, and no member is called notification_sent or
  notification_error.
\<close>

lemma ParchiProcessResult_differs_from_spec_members:
  "set (map member_name ParchiProcessResult) \<noteq> set ProcessResult_spec_members \<and>
   ''intake_link'' \<in> set (map member_name ParchiProcessResult) \<and>
   ''intake_link'' \<notin> set ProcessResult_spec_members \<and>
   ''notification_sent'' \<notin> set (map member_name ParchiProcessResult) \<and>
   ''notification_error'' \<notin> set (map member_name ParchiProcessResult)"
proof -
  have a: "''intake_link'' \<in> set (map member_name ParchiProcessResult)"
    by (simp add: ts_defs)
  have b: "''intake_link'' \<notin> set ProcessResult_spec_members"
    by (simp add: ts_defs)
  have c: "''notification_sent'' \<notin> set (map member_name ParchiProcessResult)"
    by (simp add: ts_defs)
  have d: "''notification_error'' \<notin> set (map member_name ParchiProcessResult)"
    by (simp add: ts_defs)
  from a b have "set (map member_name ParchiProcessResult) \<noteq> set ProcessResult_spec_members"
    by blast
  with a b c d show ?thesis by blast
qed

section \<open>Properties of the pipeline\<close>

lemmas example_defs =
  example_environment_def failing_environment_def example_normalize_def digits_only_def
  decimal_value_def digit_value_def asha_def ravi_def asha_prefixed_def meera_def

lemmas pipeline_defs =
  process_def decisions_def registry_after_def process_entry_def match_entry_def book_def
  createPatient_def createAppointment_def findPatientByPhone_def findAppointment_def
  blank_result_def fresh_ident_def empty_registry_def canonical_phone_def

subsection \<open>The batch loop\<close>

lemma run_batch_Cons_fst:
  "fst (run_batch env i st (e # es)) =
     fst (process_entry env i st e) #
     fst (run_batch env (Suc i) (snd (process_entry env i st e)) es)"
  by (simp add: Let_def case_prod_unfold)

lemma run_batch_Cons_snd:
  "snd (run_batch env i st (e # es)) =
     snd (run_batch env (Suc i) (snd (process_entry env i st e)) es)"
  by (simp add: Let_def case_prod_unfold)

lemma run_batch_length: "length (fst (run_batch env i st es)) = length es"
  by (induction es arbitrary: i st) (simp_all add: run_batch_Cons_fst del: run_batch.simps(2))

lemma process_entry_seen:
  "snd (snd (process_entry env i (reg, seen) e)) =
     seen @ (case canonical_phone env e of None \<Rightarrow> [] | Some ph \<Rightarrow> [ph])"
  by (auto simp: process_entry_def canonical_phone_def Let_def book_def createPatient_def
      createAppointment_def split: sum.splits MatchDecision.splits prod.splits)

text \<open>The batch context after a run: the canonical phones of the valid entries, in order.\<close>

lemma run_batch_seen:
  "snd (snd (run_batch env i (reg, seen) es)) = seen @ List.map_filter (canonical_phone env) es"
proof (induction es arbitrary: i reg seen)
  case Nil
  show ?case by (simp add: List.map_filter_simps)
next
  case (Cons e es)
  obtain out reg1 seen1 where pe: "process_entry env i (reg, seen) e = (out, (reg1, seen1))"
    by (metis prod.exhaust)
  have s1: "seen1 = seen @ (case canonical_phone env e of None \<Rightarrow> [] | Some ph \<Rightarrow> [ph])"
    using process_entry_seen[of env i reg seen e] pe by simp
  show ?case
    using Cons.IH[of "Suc i" reg1 seen1] pe s1
    by (simp add: run_batch_Cons_snd List.map_filter_simps del: run_batch.simps(2)
        split: option.splits)
qed

text \<open>
  The outcome of the entry at position \<open>j\<close> is that of the per-entry step, started in
  the state the first \<open>j\<close> entries leave behind.
\<close>

lemma run_batch_nth:
  "j < length es \<Longrightarrow>
   fst (run_batch env i st es) ! j =
     fst (process_entry env (i + j) (snd (run_batch env i st (take j es))) (es ! j))"
proof (induction es arbitrary: i st j)
  case Nil
  then show ?case by simp
next
  case (Cons e es)
  show ?case
  proof (cases j)
    case 0
    then show ?thesis by (simp add: run_batch_Cons_fst del: run_batch.simps(2))
  next
    case (Suc k)
    with Cons.prems have "k < length es" by simp
    from Cons.IH[OF this, of "Suc i" "snd (process_entry env i st e)"] Suc
    show ?thesis by (simp add: run_batch_Cons_fst run_batch_Cons_snd del: run_batch.simps(2))
  qed
qed

lemma run_batch_take_Suc:
  "j < length es \<Longrightarrow>
   snd (run_batch env i st (take (Suc j) es)) =
     snd (process_entry env (i + j) (snd (run_batch env i st (take j es))) (es ! j))"
proof (induction es arbitrary: i st j)
  case Nil
  then show ?case by simp
next
  case (Cons e es)
  show ?case
  proof (cases j)
    case 0
    then show ?thesis by (simp add: run_batch_Cons_snd del: run_batch.simps(2))
  next
    case (Suc k)
    with Cons.prems have "k < length es" by simp
    from Cons.IH[OF this, of "Suc i" "snd (process_entry env i st e)"] Suc
    show ?thesis by (simp add: run_batch_Cons_snd del: run_batch.simps(2))
  qed
qed

lemma seen_before:
  assumes "i < j" "j \<le> length es" "canonical_phone env (es ! i) = Some ph"
  shows "ph \<in> set (List.map_filter (canonical_phone env) (take j es))"
proof -
  have "es ! i \<in> set (take j es)"
    using assms(1,2) by (metis in_set_conv_nth length_take min.absorb2 nth_take)
  then show ?thesis
    using assms(3) by (auto simp: List.map_filter_def intro!: image_eqI[where x="es ! i"])
qed

lemma seen_before_iff:
  assumes "j \<le> length es"
  shows "ph \<in> set (List.map_filter (canonical_phone env) (take j es)) \<longleftrightarrow>
         (\<exists>i<j. canonical_phone env (es ! i) = Some ph)"
proof
  assume "ph \<in> set (List.map_filter (canonical_phone env) (take j es))"
  then obtain e where e: "e \<in> set (take j es)" "canonical_phone env e = Some ph"
    by (auto simp: List.map_filter_def)
  from e(1) obtain i where "i < length (take j es)" "take j es ! i = e"
    by (auto simp: in_set_conv_nth)
  with assms e(2) show "\<exists>i<j. canonical_phone env (es ! i) = Some ph"
    by (intro exI[of _ i]) simp
next
  assume "\<exists>i<j. canonical_phone env (es ! i) = Some ph"
  then obtain i where "i < j" "canonical_phone env (es ! i) = Some ph" by blast
  from seen_before[OF this(1) assms this(2)]
  show "ph \<in> set (List.map_filter (canonical_phone env) (take j es))" .
qed

subsection \<open>Duplicates within a batch\<close>

lemma match_entry_in_batch:
  "phone_canonical n \<in> set seen \<Longrightarrow> match_entry env reg seen n = Duplicate_in_batch"
  by (simp add: match_entry_def)

lemma process_entry_in_batch:
  assumes "normalize env e = Inr n" and "phone_canonical n \<in> set seen"
  shows "process_entry env i (reg, seen) e =
           ((Some Duplicate_in_batch, (blank_result e)\<lparr>is_duplicate := True\<rparr>),
            (reg, seen @ [phone_canonical n]))"
  using assms by (simp add: process_entry_def match_entry_in_batch)

text \<open>
  C3. When two entries of a batch have the same canonical phone, the later one resolves
  to \<open>duplicate_in_batch\<close> whatever the registry holds (so the batch-order check takes
  precedence over the registry's duplicate-appointment check), its result carries only
  the duplicate flag (no patient, no appointment, no error), and processing it leaves the
  registry as it was: only the first entry of a phone can create a patient or an
  appointment.
\<close>

theorem later_same_phone_entry_is_duplicate_in_batch:
  assumes "i < j" and "j < length es"
    and "canonical_phone env (es ! i) = Some ph"
    and "canonical_phone env (es ! j) = Some ph"
  shows "decisions env reg es ! j = Some Duplicate_in_batch \<and>
         process env reg es ! j = (blank_result (es ! j))\<lparr>is_duplicate := True\<rparr> \<and>
         registry_after env reg (take (Suc j) es) = registry_after env reg (take j es)"
proof -
  obtain regj seenj where st: "snd (run_batch env 0 (reg, []) (take j es)) = (regj, seenj)"
    by (metis prod.exhaust)
  have "seenj = List.map_filter (canonical_phone env) (take j es)"
    using run_batch_seen[of env 0 reg "[]" "take j es"] st by simp
  with seen_before[OF assms(1) _ assms(3)] assms(2) have mem: "ph \<in> set seenj" by simp
  from assms(4) obtain n where n: "normalize env (es ! j) = Inr n" "phone_canonical n = ph"
    by (auto simp: canonical_phone_def split: sum.splits)
  have pe: "process_entry env j (regj, seenj) (es ! j) =
      ((Some Duplicate_in_batch, (blank_result (es ! j))\<lparr>is_duplicate := True\<rparr>),
       (regj, seenj @ [ph]))"
    using process_entry_in_batch[OF n(1), of seenj j regj] mem n(2) by simp
  have nth: "fst (run_batch env 0 (reg, []) es) ! j =
      (Some Duplicate_in_batch, (blank_result (es ! j))\<lparr>is_duplicate := True\<rparr>)"
    using run_batch_nth[OF assms(2), of env 0 "(reg, [])"] st pe by simp
  have len: "j < length (fst (run_batch env 0 (reg, []) es))"
    using assms(2) by (simp add: run_batch_length)
  have d: "decisions env reg es ! j = Some Duplicate_in_batch"
    using nth len by (simp add: decisions_def)
  have p: "process env reg es ! j = (blank_result (es ! j))\<lparr>is_duplicate := True\<rparr>"
    using nth len by (simp add: process_def)
  have r: "registry_after env reg (take (Suc j) es) = registry_after env reg (take j es)"
    using run_batch_take_Suc[OF assms(2), of env 0 "(reg, [])"] st pe
    by (simp add: registry_after_def)
  from d p r show ?thesis by blast
qed

text \<open>
  An instance: Asha is registered with an appointment on 5 November. On its own, an entry
  for her on that day is a registry duplicate; after an entry for her on 4 November in
  the same batch it is a batch duplicate, and the registry is the same before and after
  it.
\<close>

theorem later_same_phone_entry_witness:
  "(0::nat) < 1 \<and> 1 < length [asha, asha_prefixed] \<and>
   canonical_phone example_environment ([asha, asha_prefixed] ! 0) = Some ''9876543210'' \<and>
   canonical_phone example_environment ([asha, asha_prefixed] ! 1) = Some ''9876543210'' \<and>
   decisions example_environment
     (registry_after example_environment empty_registry [asha_prefixed]) [asha_prefixed] =
     [Some Duplicate_existing_appointment] \<and>
   decisions example_environment
     (registry_after example_environment empty_registry [asha_prefixed])
     [asha, asha_prefixed] ! 1 = Some Duplicate_in_batch \<and>
   process example_environment
     (registry_after example_environment empty_registry [asha_prefixed])
     [asha, asha_prefixed] ! 1 = (blank_result ([asha, asha_prefixed] ! 1))\<lparr>is_duplicate := True\<rparr> \<and>
   registry_after example_environment
     (registry_after example_environment empty_registry [asha_prefixed])
     (take (Suc 1) [asha, asha_prefixed]) =
   registry_after example_environment
     (registry_after example_environment empty_registry [asha_prefixed])
     (take 1 [asha, asha_prefixed])"
proof -
  have h0: "(0::nat) < 1" by simp
  have h1: "1 < length [asha, asha_prefixed]" by simp
  have h2: "canonical_phone example_environment ([asha, asha_prefixed] ! 0) = Some ''9876543210''"
    by (simp add: example_defs canonical_phone_def)
  have h3: "canonical_phone example_environment ([asha, asha_prefixed] ! 1) = Some ''9876543210''"
    by (simp add: example_defs canonical_phone_def)
  have alone: "decisions example_environment
     (registry_after example_environment empty_registry [asha_prefixed]) [asha_prefixed] =
     [Some Duplicate_existing_appointment]"
    by (simp add: example_defs pipeline_defs Let_def)
  from later_same_phone_entry_is_duplicate_in_batch[OF h0 h1 h2 h3] h0 h1 h2 h3 alone
  show ?thesis by blast
qed
subsection \<open>What a run leaves in the registry\<close>

lemma find_append_case:
  "find P (xs @ ys) = (case find P xs of None \<Rightarrow> find P ys | Some x \<Rightarrow> Some x)"
  by (induction xs) auto

lemma extends_refl: "extends reg reg"
  by (simp add: extends_def)

lemma extends_trans: "extends a b \<Longrightarrow> extends b c \<Longrightarrow> extends a c"
  by (auto simp: extends_def)

lemma booked_mono:
  assumes "extends reg reg'" and "booked env reg ph d"
  shows "booked env reg' ph d"
proof -
  from assms(1) obtain ps as where ps: "reg_patients reg' = reg_patients reg @ ps"
    and as: "reg_appointments reg' = reg_appointments reg @ as"
    by (auto simp: extends_def)
  from assms(2) obtain p a where p: "findPatientByPhone reg ph = Some p"
    and a: "findAppointment env reg (patient_ident p) d = Some a"
    by (auto simp: booked_def split: option.splits)
  have "findPatientByPhone reg' ph = Some p"
    using p ps by (simp add: findPatientByPhone_def find_append_case)
  moreover have "findAppointment env reg' (patient_ident p) d = Some a"
    using a as by (simp add: findAppointment_def find_append_case)
  ultimately show ?thesis by (simp add: booked_def)
qed

lemma covered_mono:
  "extends reg reg' \<Longrightarrow> covered env reg seen es \<Longrightarrow> covered env reg' seen es"
  by (induction es arbitrary: seen) (auto split: sum.splits dest: booked_mono)

lemma book_extends: "extends reg (snd (book env i reg e n pid b))"
  by (auto simp: book_def createAppointment_def extends_def Let_def)

lemma createPatient_extends: "extends reg (snd (createPatient reg n ph))"
  by (auto simp: createPatient_def extends_def Let_def)

lemma process_entry_extends: "extends reg (fst (snd (process_entry env i (reg, seen) e)))"
proof (cases "normalize env e")
  case (Inl reason)
  then show ?thesis by (simp add: process_entry_def extends_refl)
next
  case (Inr n)
  show ?thesis
  proof (cases "match_entry env reg seen n")
    case New_patient
    show ?thesis
      using Inr New_patient
        extends_trans[OF createPatient_extends[of reg "norm_name n" "phone_canonical n"]
          book_extends[of "snd (createPatient reg (norm_name n) (phone_canonical n))" env i e n
             "patient_ident (fst (createPatient reg (norm_name n) (phone_canonical n)))" True]]
      by (simp add: process_entry_def Let_def case_prod_unfold extends_refl)
  next
    case (Existing_patient pid)
    then show ?thesis
      using Inr book_extends[of reg env i e n pid False]
      by (simp add: process_entry_def Let_def case_prod_unfold)
  next
    case Duplicate_in_batch
    then show ?thesis using Inr by (simp add: process_entry_def extends_refl)
  next
    case Duplicate_existing_appointment
    then show ?thesis using Inr by (simp add: process_entry_def extends_refl)
  qed
qed

lemma run_batch_extends: "extends reg (fst (snd (run_batch env i (reg, seen) es)))"
proof (induction es arbitrary: i reg seen)
  case Nil
  show ?case by (simp add: extends_refl)
next
  case (Cons e es)
  obtain out reg1 seen1 where pe: "process_entry env i (reg, seen) e = (out, (reg1, seen1))"
    by (metis prod.exhaust)
  have "extends reg reg1" using process_entry_extends[of reg env i seen e] pe by simp
  moreover have "extends reg1 (fst (snd (run_batch env (Suc i) (reg1, seen1) es)))"
    by (rule Cons.IH)
  ultimately show ?case
    using pe by (simp add: run_batch_Cons_snd extends_trans del: run_batch.simps(2))
qed

text \<open>
  A valid entry whose phone is new to the batch and whose result carries no error leaves
  its phone booked on its date: through the appointment it created, or through the one
  that made it a registry duplicate.
\<close>

lemma process_entry_books:
  assumes n: "normalize env e = Inr n"
    and fresh: "phone_canonical n \<notin> set seen"
    and ok: "res_error (snd (fst (process_entry env i (reg, seen) e))) = None"
  shows "booked env (fst (snd (process_entry env i (reg, seen) e)))
           (phone_canonical n) (calendar_date env (appointment_time n))"
proof (cases "findPatientByPhone reg (phone_canonical n)")
  case None
  then have m: "match_entry env reg seen n = New_patient"
    using fresh by (simp add: match_entry_def)
  from ok n m have w: "\<not> patient_write_fails env i" "\<not> appointment_write_fails env i"
    by (auto simp: process_entry_def Let_def case_prod_unfold book_def blank_result_def
        split: if_splits)
  show ?thesis
    using n m w None
    by (simp add: process_entry_def Let_def case_prod_unfold book_def createPatient_def
        createAppointment_def booked_def findPatientByPhone_def findAppointment_def
        find_append_case split: option.splits)
next
  case (Some p)
  note patient = this
  show ?thesis
  proof (cases "findAppointment env reg (patient_ident p) (calendar_date env (appointment_time n))")
    case (Some a)
    then have m: "match_entry env reg seen n = Duplicate_existing_appointment"
      using fresh patient by (simp add: match_entry_def)
    show ?thesis
      using n m Some patient by (simp add: process_entry_def booked_def)
  next
    case None
    then have m: "match_entry env reg seen n = Existing_patient (patient_ident p)"
      using fresh patient by (simp add: match_entry_def)
    from ok n m have w: "\<not> appointment_write_fails env i"
      by (auto simp: process_entry_def Let_def case_prod_unfold book_def blank_result_def
          split: if_splits)
    show ?thesis
      using n m w None patient
      by (simp add: process_entry_def Let_def case_prod_unfold book_def
          createAppointment_def booked_def findPatientByPhone_def findAppointment_def
          find_append_case split: option.splits)
  qed
qed

lemma process_entry_error_invalid:
  "normalize env e = Inl reason \<Longrightarrow>
   res_error (snd (fst (process_entry env i (reg, seen) e))) \<noteq> None"
  by (simp add: process_entry_def)

text \<open>A run without errors leaves a registry that covers the batch.\<close>

lemma run_batch_covered:
  "list_all (\<lambda>out. res_error (snd out) = None) (fst (run_batch env i (reg, seen) es)) \<Longrightarrow>
   covered env (fst (snd (run_batch env i (reg, seen) es))) seen es"
proof (induction es arbitrary: i reg seen)
  case Nil
  show ?case by simp
next
  case (Cons e es)
  obtain out reg1 seen1 where pe: "process_entry env i (reg, seen) e = (out, (reg1, seen1))"
    by (metis prod.exhaust)
  let ?final = "fst (snd (run_batch env (Suc i) (reg1, seen1) es))"
  from Cons.prems pe have ok: "res_error (snd out) = None"
    and rest: "list_all (\<lambda>out. res_error (snd out) = None)
                 (fst (run_batch env (Suc i) (reg1, seen1) es))"
    by (simp_all add: run_batch_Cons_fst del: run_batch.simps(2))
  from ok pe process_entry_error_invalid[of env e _ i reg seen]
  obtain n where n: "normalize env e = Inr n"
    by (cases "normalize env e") auto
  have s1: "seen1 = seen @ [phone_canonical n]"
    using process_entry_seen[of env i reg seen e] pe n by (simp add: canonical_phone_def)
  have tail: "covered env ?final (seen @ [phone_canonical n]) es"
    using Cons.IH[OF rest] s1 by simp
  have head: "phone_canonical n \<in> set seen \<or>
      booked env ?final (phone_canonical n) (calendar_date env (appointment_time n))"
  proof (cases "phone_canonical n \<in> set seen")
    case True
    then show ?thesis by simp
  next
    case False
    from process_entry_books[OF n False, of i reg] ok pe
    have "booked env reg1 (phone_canonical n) (calendar_date env (appointment_time n))"
      by simp
    from booked_mono[OF run_batch_extends this] show ?thesis by simp
  qed
  show ?case
    using head tail n pe by (simp add: run_batch_Cons_snd del: run_batch.simps(2))
qed

subsection \<open>Processing a covered batch\<close>

lemma match_entry_booked:
  assumes "phone_canonical n \<notin> set seen"
    and "booked env reg (phone_canonical n) (calendar_date env (appointment_time n))"
    and "calendar_date env' = calendar_date env"
  shows "match_entry env' reg seen n = Duplicate_existing_appointment"
  using assms
  by (auto simp: match_entry_def booked_def findAppointment_def split: option.splits)

lemma process_entry_duplicate:
  assumes n: "normalize env e = Inr n"
    and cov: "phone_canonical n \<in> set seen \<or>
       booked env reg (phone_canonical n) (calendar_date env (appointment_time n))"
    and same: "normalize env' = normalize env" "calendar_date env' = calendar_date env"
  shows "process_entry env' i (reg, seen) e =
     ((Some (if phone_canonical n \<in> set seen then Duplicate_in_batch
             else Duplicate_existing_appointment),
       (blank_result e)\<lparr>is_duplicate := True\<rparr>),
      (reg, seen @ [phone_canonical n]))"
proof (cases "phone_canonical n \<in> set seen")
  case True
  then show ?thesis
    using process_entry_in_batch[of env' e n seen i reg] n same by simp
next
  case False
  with cov have "booked env reg (phone_canonical n) (calendar_date env (appointment_time n))"
    by simp
  from match_entry_booked[OF False this same(2)] show ?thesis
    using n same False by (simp add: process_entry_def)
qed

lemma run_batch_covered_unchanged:
  assumes same: "normalize env' = normalize env" "calendar_date env' = calendar_date env"
  shows "covered env reg seen es \<Longrightarrow> fst (snd (run_batch env' i (reg, seen) es)) = reg"
proof (induction es arbitrary: i seen)
  case Nil
  show ?case by simp
next
  case (Cons e es)
  from Cons.prems obtain n where n: "normalize env e = Inr n"
    and head: "phone_canonical n \<in> set seen \<or>
       booked env reg (phone_canonical n) (calendar_date env (appointment_time n))"
    and tail: "covered env reg (seen @ [phone_canonical n]) es"
    by (auto split: sum.splits)
  from process_entry_duplicate[OF n head same, of i] Cons.IH[OF tail, of "Suc i"]
  show ?case by (simp add: run_batch_Cons_snd del: run_batch.simps(2))
qed

lemma covered_take: "covered env reg seen es \<Longrightarrow> covered env reg seen (take j es)"
proof (induction es arbitrary: seen j)
  case Nil
  then show ?case by simp
next
  case (Cons e es)
  then show ?case by (cases j) (auto split: sum.splits)
qed

lemma covered_nth:
  "covered env reg seen es \<Longrightarrow> j < length es \<Longrightarrow>
   (\<exists>n. normalize env (es ! j) = Inr n \<and>
      (phone_canonical n \<in> set (seen @ List.map_filter (canonical_phone env) (take j es)) \<or>
       booked env reg (phone_canonical n) (calendar_date env (appointment_time n))))"
proof (induction es arbitrary: seen j)
  case Nil
  then show ?case by simp
next
  case (Cons e es)
  from Cons.prems(1) obtain n where n: "normalize env e = Inr n"
    and head: "phone_canonical n \<in> set seen \<or>
       booked env reg (phone_canonical n) (calendar_date env (appointment_time n))"
    and tail: "covered env reg (seen @ [phone_canonical n]) es"
    by (auto split: sum.splits)
  show ?case
  proof (cases j)
    case 0
    with n head show ?thesis by (auto simp: List.map_filter_simps)
  next
    case (Suc k)
    with Cons.prems(2) have "k < length es" by simp
    from Cons.IH[OF tail this] Suc n show ?thesis
      by (auto simp: List.map_filter_simps canonical_phone_def)
  qed
qed

lemma canonical_phone_cong:
  "normalize env' = normalize env \<Longrightarrow> canonical_phone env' = canonical_phone env"
  by (rule ext) (simp add: canonical_phone_def)

text \<open>
  The scenario of section 8 of the specification: of two entries for Asha and one for
  Ravi without a phone, the first creates the one patient and the one appointment, the
  second is a batch duplicate and the third is recorded with an error.
\<close>

lemma scenario_of_the_specification:
  "decisions example_environment empty_registry [asha, asha, ravi] =
     [Some New_patient, Some Duplicate_in_batch, None] \<and>
   map res_error (process example_environment empty_registry [asha, asha, ravi]) =
     [None, None, Some ''missing_phone''] \<and>
   map is_duplicate (process example_environment empty_registry [asha, asha, ravi]) =
     [False, True, False] \<and>
   length (reg_patients (registry_after example_environment empty_registry [asha, asha, ravi])) = 1 \<and>
   length (reg_appointments (registry_after example_environment empty_registry [asha, asha, ravi])) = 1"
  by (simp add: example_defs pipeline_defs Let_def)

text \<open>
  C1 (as amended). When a batch was processed without any error, processing the same
  batch again on the registry the first run left creates no patient and no appointment:
  the registry stays as it is, whatever the registry writes and the messaging gateway
  would do the second time. Every entry of the second run is a duplicate and its result
  carries only the duplicate flag: \<open>duplicate_existing_appointment\<close> for the first entry
  of each canonical phone, \<open>duplicate_in_batch\<close> for a later entry with the same phone.
\<close>

theorem reprocessing_yields_duplicates_and_creates_nothing:
  assumes ok: "list_all (\<lambda>r. res_error r = None) (process env reg es)"
    and same: "normalize env' = normalize env" "calendar_date env' = calendar_date env"
  shows "registry_after env' (registry_after env reg es) es = registry_after env reg es \<and>
         (\<forall>j<length es.
            decisions env' (registry_after env reg es) es ! j =
              Some (if \<exists>i<j. canonical_phone env (es ! i) = canonical_phone env (es ! j)
                    then Duplicate_in_batch else Duplicate_existing_appointment) \<and>
            process env' (registry_after env reg es) es ! j =
              (blank_result (es ! j))\<lparr>is_duplicate := True\<rparr>)"
proof -
  let ?reg1 = "registry_after env reg es"
  from ok have "list_all (\<lambda>out. res_error (snd out) = None) (fst (run_batch env 0 (reg, []) es))"
    by (simp add: process_def list_all_iff)
  from run_batch_covered[OF this] have cov: "covered env ?reg1 [] es"
    by (simp add: registry_after_def)
  have unchanged: "registry_after env' ?reg1 es = ?reg1"
    using run_batch_covered_unchanged[OF same cov, of 0] by (simp add: registry_after_def)
  have each: "decisions env' ?reg1 es ! j =
              Some (if \<exists>i<j. canonical_phone env (es ! i) = canonical_phone env (es ! j)
                    then Duplicate_in_batch else Duplicate_existing_appointment) \<and>
            process env' ?reg1 es ! j = (blank_result (es ! j))\<lparr>is_duplicate := True\<rparr>"
    if j: "j < length es" for j
  proof -
    let ?seen = "List.map_filter (canonical_phone env) (take j es)"
    have "fst (snd (run_batch env' 0 (?reg1, []) (take j es))) = ?reg1"
      by (rule run_batch_covered_unchanged[OF same covered_take[OF cov]])
    moreover have "snd (snd (run_batch env' 0 (?reg1, []) (take j es))) = ?seen"
      using run_batch_seen[of env' 0 ?reg1 "[]" "take j es"] canonical_phone_cong[OF same(1)]
      by simp
    ultimately have st: "snd (run_batch env' 0 (?reg1, []) (take j es)) = (?reg1, ?seen)"
      by (simp add: prod_eq_iff)
    from covered_nth[OF cov j] obtain n where n: "normalize env (es ! j) = Inr n"
      and c: "phone_canonical n \<in> set ?seen \<or>
         booked env ?reg1 (phone_canonical n) (calendar_date env (appointment_time n))"
      by auto
    have cp: "canonical_phone env (es ! j) = Some (phone_canonical n)"
      using n by (simp add: canonical_phone_def)
    have mem: "phone_canonical n \<in> set ?seen \<longleftrightarrow>
        (\<exists>i<j. canonical_phone env (es ! i) = canonical_phone env (es ! j))"
      using seen_before_iff[of j es "phone_canonical n" env] j cp by simp
    have nth: "fst (run_batch env' 0 (?reg1, []) es) ! j =
        (Some (if \<exists>i<j. canonical_phone env (es ! i) = canonical_phone env (es ! j)
               then Duplicate_in_batch else Duplicate_existing_appointment),
         (blank_result (es ! j))\<lparr>is_duplicate := True\<rparr>)"
      using run_batch_nth[OF j, of env' 0 "(?reg1, [])"] st
        process_entry_duplicate[OF n c same, of j] mem
      by simp
    have len: "j < length (fst (run_batch env' 0 (?reg1, []) es))"
      using j by (simp add: run_batch_length)
    show ?thesis
      using nth len by (simp add: decisions_def process_def)
  qed
  from unchanged each show ?thesis by blast
qed

text \<open>
  An instance: a batch for Asha, Meera and Asha again (her number written with the
  calling code, a day later) is processed on the empty registry without error; in a
  second run, in which every registry write and every message would fail, the registry
  stays as it is, the first entry is a registry duplicate and the third a batch duplicate.
\<close>

theorem reprocessing_yields_duplicates_witness:
  "map res_error (process example_environment empty_registry [asha, meera, asha_prefixed]) =
     [None, None, None] \<and>
   normalize failing_environment = normalize example_environment \<and>
   calendar_date failing_environment = calendar_date example_environment \<and>
   registry_after failing_environment
     (registry_after example_environment empty_registry [asha, meera, asha_prefixed])
     [asha, meera, asha_prefixed] =
   registry_after example_environment empty_registry [asha, meera, asha_prefixed] \<and>
   decisions failing_environment
     (registry_after example_environment empty_registry [asha, meera, asha_prefixed])
     [asha, meera, asha_prefixed] ! 0 = Some Duplicate_existing_appointment \<and>
   decisions failing_environment
     (registry_after example_environment empty_registry [asha, meera, asha_prefixed])
     [asha, meera, asha_prefixed] ! 2 = Some Duplicate_in_batch"
proof -
  let ?es = "[asha, meera, asha_prefixed]"
  let ?reg1 = "registry_after example_environment empty_registry ?es"
  have errs: "map res_error (process example_environment empty_registry ?es) = [None, None, None]"
    by (simp add: example_defs pipeline_defs Let_def)
  have "list_all (\<lambda>x. x = None) (map res_error (process example_environment empty_registry ?es))"
    by (simp only: errs) simp
  then have ok: "list_all (\<lambda>r. res_error r = None) (process example_environment empty_registry ?es)"
    by (simp only: list.pred_map comp_def)
  have s1: "normalize failing_environment = normalize example_environment"
    by (simp add: failing_environment_def)
  have s2: "calendar_date failing_environment = calendar_date example_environment"
    by (simp add: failing_environment_def)
  have same_phone: "canonical_phone example_environment asha =
      canonical_phone example_environment asha_prefixed"
    by (simp add: example_defs canonical_phone_def)
  note re = reprocessing_yields_duplicates_and_creates_nothing[OF ok s1 s2]
  from re have unchanged: "registry_after failing_environment ?reg1 ?es = ?reg1"
    by (rule conjunct1)
  from re have each: "\<forall>j<length ?es.
        decisions failing_environment ?reg1 ?es ! j =
          Some (if \<exists>i<j. canonical_phone example_environment (?es ! i) =
                          canonical_phone example_environment (?es ! j)
                then Duplicate_in_batch else Duplicate_existing_appointment) \<and>
        process failing_environment ?reg1 ?es ! j =
          (blank_result (?es ! j))\<lparr>is_duplicate := True\<rparr>"
    by (rule conjunct2)
  have d0: "decisions failing_environment ?reg1 ?es ! 0 = Some Duplicate_existing_appointment"
    using each[rule_format, of 0] by simp
  have third: "\<exists>i<2::nat. canonical_phone example_environment (?es ! i) =
      canonical_phone example_environment (?es ! 2)"
    using same_phone by (intro exI[of _ 0]) simp
  have d2: "decisions failing_environment ?reg1 ?es ! 2 = Some Duplicate_in_batch"
    using each[rule_format, of 2] third by simp
  from errs s1 s2 unchanged d0 d2 show ?thesis by blast
qed

text \<open>
  C1 fails as stated: in the second run of a batch that names one phone twice, the later
  entry is a batch duplicate, not a registry duplicate. The batch of two entries for Asha
  is processed without error, and its second run resolves to
  \<open>duplicate_existing_appointment\<close> and \<open>duplicate_in_batch\<close>.
\<close>

theorem reprocessing_later_entry_is_duplicate_in_batch:
  "map res_error (process example_environment empty_registry [asha, asha]) = [None, None] \<and>
   decisions example_environment
     (registry_after example_environment empty_registry [asha, asha]) [asha, asha] =
     [Some Duplicate_existing_appointment, Some Duplicate_in_batch] \<and>
   decisions example_environment
     (registry_after example_environment empty_registry [asha, asha]) [asha, asha] ! 1 \<noteq>
     Some Duplicate_existing_appointment"
  by (simp add: example_defs pipeline_defs Let_def)

end
